theory Spec2Isabelle
  imports Main "HOL-Library.Word" "HOL-Library.Signed_Division"
begin

unbundle bit_operations_syntax

section \<open>Process records (os_process.h, os_process.c)\<close>

text \<open>
  A C pointer: either the null pointer or a reference. Reading through the null pointer
  is a fault.
\<close>

datatype 'a pointer = NULL | Ptr 'a

datatype fault = NullDereference

fun deref :: "'a pointer \<Rightarrow> fault + 'a" where
  "deref NULL = Inl NullDereference"
| "deref (Ptr x) = Inr x"

text \<open>
  \<^verbatim>\<open>struct program_linked_list_node\<close> of os_process.h. A node is a static object; it is
  referred to by its address, and \<^verbatim>\<open>next\<close> is the address of the following node or null.
  A program is the 16-bit address of its function.
\<close>

record program_linked_list_node =
  program :: "16 word"
  "next" :: "nat pointer"

text \<open>
  \<^verbatim>\<open>typedef enum ProcessState\<close> of os_process.h, in declaration order.
\<close>

datatype ProcessState = OS_PS_UNUSED | OS_PS_READY | OS_PS_RUNNING | OS_PS_BLOCKED

text \<open>
  Modelled from the spec: the member list of \<^verbatim>\<open>Process\<close> is left open in os_process.h
  (\<^verbatim>\<open>typedef struct { ? } Process;\<close>). The fields are those of the process record of the
  data model: state, program (a 16-bit function pointer, 0 being the null pointer),
  priority, the saved stack pointer (the union \<^verbatim>\<open>StackPointer\<close>, whose two views are one
  16-bit value) and the stack checksum. The members that the sources and tests access
  by name are \<^verbatim>\<open>state\<close>, \<^verbatim>\<open>program\<close>, \<^verbatim>\<open>priority\<close>, \<^verbatim>\<open>sp\<close> and \<^verbatim>\<open>checksum\<close>.
\<close>

record Process =
  state :: ProcessState
  program :: "16 word"
  priority :: "8 word"
  sp :: "16 word"
  checksum :: "8 word"

text \<open>
  \<^verbatim>\<open>os_isRunnable\<close> (os_process.c). A pointer to a process is represented by the record
  it points to. The left operand of \<^verbatim>\<open>&&\<close> guards the right one:
  \<^verbatim>\<open>process->state\<close> is read only when \<^verbatim>\<open>process\<close> is not null.
\<close>

definition os_isRunnable :: "Process pointer \<Rightarrow> fault + bool" where
  "os_isRunnable process =
     (if process \<noteq> NULL then
        (case deref process of
           Inl e \<Rightarrow> Inl e
         | Inr p \<Rightarrow>
             if state p = OS_PS_READY \<or> state p = OS_PS_RUNNING then Inr True
             else Inr False)
      else Inr False)"

section \<open>Board and system constants (atmega644constants.h, defines.h)\<close>

text \<open>
  The device header \<^verbatim>\<open><avr/io.h>\<close> belongs to the C library, not to the repository. What
  the sources take from it is a parameter of the model: the first and last SRAM address
  and the positions of the timer control bits that \<^verbatim>\<open>os_init_timer\<close> names.
\<close>

record avr_io =
  RAMSTART :: int
  RAMEND :: int
  WGM21 :: nat
  CS22 :: nat
  CS21 :: nat
  CS20 :: nat
  OCIE2A :: nat
  CS02 :: nat
  CS01 :: nat
  CS00 :: nat
  TOIE0 :: nat

text \<open>
  The macros of atmega644constants.h and defines.h. Their operands are C \<^verbatim>\<open>int\<close>
  constants; \<open>sdiv\<close> is C's division, which truncates towards zero.
\<close>

definition AVR_CLOCK_FREQUENCY :: nat where
  "AVR_CLOCK_FREQUENCY = 20000000"

definition AVR_SRAM_START :: "'a avr_io_scheme \<Rightarrow> int" where
  "AVR_SRAM_START io = RAMSTART io"

definition AVR_SRAM_END :: "'a avr_io_scheme \<Rightarrow> int" where
  "AVR_SRAM_END io = RAMEND io + 1"

definition AVR_SRAM_LAST :: "'a avr_io_scheme \<Rightarrow> int" where
  "AVR_SRAM_LAST io = RAMEND io"

definition AVR_MEMORY_SRAM :: "'a avr_io_scheme \<Rightarrow> int" where
  "AVR_MEMORY_SRAM io = AVR_SRAM_END io - AVR_SRAM_START io"

definition MAX_NUMBER_OF_PROCESSES :: nat where
  "MAX_NUMBER_OF_PROCESSES = 8"

definition DEFAULT_PRIORITY :: "8 word" where
  "DEFAULT_PRIORITY = 2"

definition INVALID_PROCESS :: "8 word" where
  "INVALID_PROCESS = 255"

definition STACK_SIZE_MAIN :: int where
  "STACK_SIZE_MAIN = 32"

definition STACK_SIZE_ISR :: int where
  "STACK_SIZE_ISR = 192"

definition STACK_SIZE_PROC :: "'a avr_io_scheme \<Rightarrow> int" where
  "STACK_SIZE_PROC io =
     (((AVR_MEMORY_SRAM io sdiv 2) - STACK_SIZE_MAIN - STACK_SIZE_ISR)
        sdiv int MAX_NUMBER_OF_PROCESSES)"

definition BOTTOM_OF_MAIN_STACK :: "'a avr_io_scheme \<Rightarrow> int" where
  "BOTTOM_OF_MAIN_STACK io = AVR_SRAM_LAST io"

definition BOTTOM_OF_ISR_STACK :: "'a avr_io_scheme \<Rightarrow> int" where
  "BOTTOM_OF_ISR_STACK io = BOTTOM_OF_MAIN_STACK io - STACK_SIZE_MAIN"

definition BOTTOM_OF_PROCS_STACK :: "'a avr_io_scheme \<Rightarrow> int" where
  "BOTTOM_OF_PROCS_STACK io = BOTTOM_OF_ISR_STACK io - STACK_SIZE_ISR"

definition PROCESS_STACK_BOTTOM :: "'a avr_io_scheme \<Rightarrow> nat \<Rightarrow> int" where
  "PROCESS_STACK_BOTTOM io PID = BOTTOM_OF_PROCS_STACK io - (int PID * STACK_SIZE_PROC io)"

text \<open>
  The stack regions as address intervals. A stack grows downwards from its bottom, the
  highest address (so the comments of defines.h), and has the size the macros give it:
  slot \<open>k\<close> owns \<open>[bottom k - STACK_SIZE_PROC + 1, bottom k]\<close>, and likewise the scheduler
  stack and the main stack below their bottoms.
\<close>

definition proc_stack_region :: "'a avr_io_scheme \<Rightarrow> nat \<Rightarrow> int set" where
  "proc_stack_region io k =
     {PROCESS_STACK_BOTTOM io k - STACK_SIZE_PROC io + 1 .. PROCESS_STACK_BOTTOM io k}"

definition isr_stack_region :: "'a avr_io_scheme \<Rightarrow> int set" where
  "isr_stack_region io = {BOTTOM_OF_ISR_STACK io - STACK_SIZE_ISR + 1 .. BOTTOM_OF_ISR_STACK io}"

definition main_stack_region :: "'a avr_io_scheme \<Rightarrow> int set" where
  "main_stack_region io =
     {BOTTOM_OF_MAIN_STACK io - STACK_SIZE_MAIN + 1 .. BOTTOM_OF_MAIN_STACK io}"

text \<open>
  The ATmega644 that atmega644constants.h is written for: 4 KB of SRAM from 0x0100 to
  0x10FF, and the bit positions of its timer registers.
\<close>

definition atmega644 :: avr_io where
  "atmega644 = \<lparr> RAMSTART = 0x0100, RAMEND = 0x10FF, WGM21 = 1, CS22 = 2, CS21 = 1, CS20 = 0,
     OCIE2A = 1, CS02 = 2, CS01 = 1, CS00 = 0, TOIE0 = 0 \<rparr>"

section \<open>Autostart registry (os_process.h, os_process.c)\<close>

text \<open>
  The static storage that the autostart list lives in: the nodes by address, and the
  global \<^verbatim>\<open>autostart_head\<close>.
\<close>

record autostart_image =
  nodes :: "nat \<Rightarrow> program_linked_list_node"
  autostart_head :: "nat pointer"

text \<open>
  The image before any constructor has run. Every expansion of \<^verbatim>\<open>REGISTER_AUTOSTART\<close>
  owns one static node, given here as the pair of the node's address and the program it
  names; the initialiser \<^verbatim>\<open>{.program = PROGRAM_FUNCTION}\<close> sets the node's program and
  leaves \<^verbatim>\<open>next\<close> zero. \<^verbatim>\<open>autostart_head\<close> starts as \<^verbatim>\<open>NULL\<close> (os_process.c).
\<close>

definition static_node :: "(nat \<times> 16 word) list \<Rightarrow> nat \<Rightarrow> program_linked_list_node" where
  "static_node expansions a =
     (case map_of expansions a of
        Some p \<Rightarrow> \<lparr> program_linked_list_node.program = p, next = NULL \<rparr>
      | None \<Rightarrow> \<lparr> program_linked_list_node.program = 0, next = NULL \<rparr>)"

definition load_image :: "(nat \<times> 16 word) list \<Rightarrow> autostart_image" where
  "load_image expansions = \<lparr> nodes = static_node expansions, autostart_head = NULL \<rparr>"

text \<open>
  The constructor \<^verbatim>\<open>register_autostart_##PROGRAM_FUNCTION\<close> that the macro generates, for
  the expansion whose node is at address \<open>a\<close>:
  \<^verbatim>\<open>node.next = autostart_head; autostart_head = &node;\<close>
\<close>

definition register_autostart :: "nat \<Rightarrow> autostart_image \<Rightarrow> autostart_image" where
  "register_autostart a img =
     img\<lparr> nodes := (nodes img)(a := (nodes img a)\<lparr> next := autostart_head img \<rparr>),
          autostart_head := Ptr a \<rparr>"

text \<open>The constructors run one after the other before \<^verbatim>\<open>main\<close>, in the order given.\<close>

definition run_constructors :: "nat list \<Rightarrow> autostart_image \<Rightarrow> autostart_image" where
  "run_constructors order img = fold register_autostart order img"

text \<open>
  Reading the list: follow \<^verbatim>\<open>next\<close> from a node pointer until the null pointer and collect
  the programs. The walk takes at most \<open>fuel\<close> steps; \<open>None\<close> means that it has not reached
  the null pointer by then.
\<close>

fun autostart_programs ::
  "nat \<Rightarrow> (nat \<Rightarrow> program_linked_list_node) \<Rightarrow> nat pointer \<Rightarrow> 16 word list option" where
  "autostart_programs fuel ns NULL = Some []"
| "autostart_programs 0 ns (Ptr a) = None"
| "autostart_programs (Suc fuel) ns (Ptr a) =
     (case autostart_programs fuel ns (next (ns a)) of
        None \<Rightarrow> None
      | Some ps \<Rightarrow> Some (program_linked_list_node.program (ns a) # ps))"

text \<open>The addresses of the nodes that a pointer leads through, up to the null pointer.\<close>

fun chain :: "(nat \<Rightarrow> program_linked_list_node) \<Rightarrow> nat pointer \<Rightarrow> nat list \<Rightarrow> bool" where
  "chain ns p [] = (p = NULL)"
| "chain ns p (a # as) = (p = Ptr a \<and> chain ns (next (ns a)) as)"

section \<open>Context switch (util.h)\<close>

text \<open>
  The part of the AVR core that the two assembler macros touch: the register file
  \<open>r0 .. r31\<close>, the status register, the stack pointer, the program counter and the data
  memory that the stack lives in. The stack pointer points at the next free byte;
  the stack grows towards lower addresses. The register file and the I/O registers,
  which the AVR also shows at the lowest data addresses, are kept apart from the memory
  here: a stack lies in SRAM. The instructions of a macro follow each other in the order
  of its text; the program counter of the model is the return target that \<^verbatim>\<open>reti\<close> loads.
\<close>

record avr_cpu =
  R :: "nat \<Rightarrow> 8 word"
  SREG :: "8 word"
  SP :: "16 word"
  PC :: "16 word"
  SRAM :: "16 word \<Rightarrow> 8 word"

text \<open>
  The instructions of the two macros. \<^verbatim>\<open>in rN, __SREG__\<close> and \<^verbatim>\<open>out __SREG__, rN\<close> are
  \<open>IN_SREG\<close> and \<open>OUT_SREG\<close>.
\<close>

datatype instr = PUSH nat | POP nat | IN_SREG nat | OUT_SREG nat | CLI | CLR nat | RETI

text \<open>
  One instruction. \<^verbatim>\<open>push\<close> stores at the stack pointer and then decrements it; \<^verbatim>\<open>pop\<close>
  increments it and then loads. \<^verbatim>\<open>cli\<close> clears the global interrupt flag, bit 7 of the
  status register. \<^verbatim>\<open>clr\<close> is an exclusive or of the register with itself: the register
  becomes zero, the flags S, V and N (bits 4, 3, 2) are cleared and Z (bit 1) is set.
  \<^verbatim>\<open>reti\<close> pops the return address, high byte first, into the program counter and sets
  the global interrupt flag.
\<close>

fun step :: "instr \<Rightarrow> avr_cpu \<Rightarrow> avr_cpu" where
  "step (PUSH r) c = c\<lparr> SRAM := (SRAM c)(SP c := R c r), SP := SP c - 1 \<rparr>"
| "step (POP r) c = c\<lparr> R := (R c)(r := SRAM c (SP c + 1)), SP := SP c + 1 \<rparr>"
| "step (IN_SREG r) c = c\<lparr> R := (R c)(r := SREG c) \<rparr>"
| "step (OUT_SREG r) c = c\<lparr> SREG := R c r \<rparr>"
| "step CLI c = c\<lparr> SREG := SREG c AND NOT 0x80 \<rparr>"
| "step (CLR r) c =
     c\<lparr> R := (R c)(r := R c r XOR R c r), SREG := (SREG c AND NOT 0x1C) OR 0x02 \<rparr>"
| "step RETI c =
     c\<lparr> PC := push_bit 8 (ucast (SRAM c (SP c + 1))) OR ucast (SRAM c (SP c + 2)),
        SP := SP c + 2, SREG := SREG c OR 0x80 \<rparr>"

text \<open>The macro \<^verbatim>\<open>saveContext()\<close>, instruction by instruction.\<close>

definition saveContext_code :: "instr list" where
  "saveContext_code =
    [PUSH 31,
     IN_SREG 31,
     CLI,
     PUSH 31, PUSH 30, PUSH 29, PUSH 28, PUSH 27, PUSH 26, PUSH 25, PUSH 24,
     PUSH 23, PUSH 22, PUSH 21, PUSH 20, PUSH 19, PUSH 18, PUSH 17, PUSH 16,
     PUSH 15, PUSH 14, PUSH 13, PUSH 12, PUSH 11, PUSH 10, PUSH 9, PUSH 8,
     PUSH 7, PUSH 6, PUSH 5, PUSH 4, PUSH 3, PUSH 2, PUSH 1,
     CLR 1,
     PUSH 0]"

text \<open>The macro \<^verbatim>\<open>restoreContext()\<close>, instruction by instruction.\<close>

definition restoreContext_code :: "instr list" where
  "restoreContext_code =
    [POP 0, POP 1, POP 2, POP 3, POP 4, POP 5, POP 6, POP 7,
     POP 8, POP 9, POP 10, POP 11, POP 12, POP 13, POP 14, POP 15,
     POP 16, POP 17, POP 18, POP 19, POP 20, POP 21, POP 22, POP 23,
     POP 24, POP 25, POP 26, POP 27, POP 28, POP 29, POP 30, POP 31,
     OUT_SREG 31,
     POP 31,
     RETI]"

definition saveContext :: "avr_cpu \<Rightarrow> avr_cpu" where
  "saveContext c = fold step saveContext_code c"

definition restoreContext :: "avr_cpu \<Rightarrow> avr_cpu" where
  "restoreContext c = fold step restoreContext_code c"

text \<open>The registers that a piece of code pushes, and those that it pops, in order.\<close>

fun pushed :: "instr list \<Rightarrow> nat list" where
  "pushed [] = []"
| "pushed (PUSH r # is) = r # pushed is"
| "pushed (i # is) = pushed is"

fun popped :: "instr list \<Rightarrow> nat list" where
  "popped [] = []"
| "popped (POP r # is) = r # popped is"
| "popped (i # is) = popped is"

text \<open>The \<open>n\<close> bytes above the stack pointer, in the order in which \<^verbatim>\<open>pop\<close> reads them.\<close>

definition stack_top :: "avr_cpu \<Rightarrow> nat \<Rightarrow> 8 word list" where
  "stack_top c n = map (\<lambda>i. SRAM c (SP c + of_nat i)) [1..<Suc n]"

text \<open>
  The reading of \<^verbatim>\<open>saveContext\<close> that pushes the status byte twice around \<^verbatim>\<open>cli\<close>: the
  first byte pushed (at the old stack pointer) is the status as it was, the second (one
  below) the status with the interrupt flag cleared.
\<close>

definition status_pushed_twice :: "avr_cpu \<Rightarrow> bool" where
  "status_pushed_twice c \<longleftrightarrow>
     SRAM (saveContext c) (SP c) = SREG c
     \<and> SRAM (saveContext c) (SP c - 1) = (SREG c AND NOT 0x80)"

text \<open>
  The reading of the pair as an identity: after \<^verbatim>\<open>saveContext\<close> and then
  \<^verbatim>\<open>restoreContext\<close> the registers, the status byte and the stack pointer are what they
  were before.
\<close>

definition context_round_trip :: "avr_cpu \<Rightarrow> bool" where
  "context_round_trip c \<longleftrightarrow>
     R (restoreContext (saveContext c)) = R c
     \<and> SREG (restoreContext (saveContext c)) = SREG c
     \<and> SP (restoreContext (saveContext c)) = SP c"

text \<open>A machine state to evaluate the macros on.\<close>

definition cpu0 :: avr_cpu where
  "cpu0 = \<lparr> R = (\<lambda>r. of_nat r + 0xA0), SREG = 0x81, SP = 0x0F3B, PC = 0,
     SRAM = (\<lambda>a. if a = 0x0F3C then 0x12 else if a = 0x0F3D then 0x34 else 0) \<rparr>"

text \<open>
  The same state as the interrupt hardware leaves it when it enters a handler: the
  global interrupt flag is cleared.
\<close>

definition cpu_in_isr :: avr_cpu where
  "cpu_in_isr = cpu0\<lparr> SREG := 0x01 \<rparr>"

section \<open>Timers (os_core.c, util.h)\<close>

text \<open>The timer registers that \<^verbatim>\<open>os_init_timer\<close> writes.\<close>

record timer_regs =
  TCCR2A :: "8 word"
  TCCR2B :: "8 word"
  TIMSK2 :: "8 word"
  OCR2A :: "8 word"
  TCCR0B :: "8 word"
  TIMSK0 :: "8 word"

text \<open>
  The bit macros \<^verbatim>\<open>sbi\<close> and \<^verbatim>\<open>cbi\<close> of util.h on an 8-bit register:
  \<^verbatim>\<open>x |= (1 << (b))\<close> and \<^verbatim>\<open>x &= ~(1 << (b))\<close>.
\<close>

definition sbi :: "8 word \<Rightarrow> nat \<Rightarrow> 8 word" where
  "sbi x b = x OR push_bit b 1"

definition cbi :: "8 word \<Rightarrow> nat \<Rightarrow> 8 word" where
  "cbi x b = x AND NOT (push_bit b 1)"

text \<open>\<^verbatim>\<open>os_init_timer\<close> (os_core.c), statement by statement.\<close>

definition os_init_timer :: "'a avr_io_scheme \<Rightarrow> timer_regs \<Rightarrow> timer_regs" where
  "os_init_timer io t0 =
     (let t1 = t0\<lparr> TCCR2A := sbi (TCCR2A t0) (WGM21 io) \<rparr>;
          t2 = t1\<lparr> TCCR2B := sbi (TCCR2B t1) (CS22 io) \<rparr>;
          t3 = t2\<lparr> TCCR2B := sbi (TCCR2B t2) (CS21 io) \<rparr>;
          t4 = t3\<lparr> TCCR2B := sbi (TCCR2B t3) (CS20 io) \<rparr>;
          t5 = t4\<lparr> TIMSK2 := sbi (TIMSK2 t4) (OCIE2A io) \<rparr>;
          t6 = t5\<lparr> OCR2A := 60 \<rparr>;
          t7 = t6\<lparr> TCCR0B := cbi (TCCR0B t6) (CS00 io) \<rparr>;
          t8 = t7\<lparr> TCCR0B := cbi (TCCR0B t7) (CS01 io) \<rparr>;
          t9 = t8\<lparr> TCCR0B := sbi (TCCR0B t8) (CS02 io) \<rparr>
      in t9\<lparr> TIMSK0 := sbi (TIMSK0 t9) (TOIE0 io) \<rparr>)"

text \<open>
  The clock divider that the clock select bits CS22, CS21, CS20 of timer 2 choose
  (0: the timer is stopped). \<^verbatim>\<open>os_init_timer\<close> names the last line: "Prescaler 1024".
\<close>

fun timer2_prescaler :: "bool \<Rightarrow> bool \<Rightarrow> bool \<Rightarrow> nat" where
  "timer2_prescaler False False False = 0"
| "timer2_prescaler False False True = 1"
| "timer2_prescaler False True False = 8"
| "timer2_prescaler False True True = 32"
| "timer2_prescaler True False False = 64"
| "timer2_prescaler True False True = 128"
| "timer2_prescaler True True False = 256"
| "timer2_prescaler True True True = 1024"

text \<open>
  The time between two compare matches of timer 2 in clear-on-compare-match mode, in
  nanoseconds: the counter runs from 0 to \<^verbatim>\<open>OCR2A\<close> at the divided clock, which takes
  \<open>prescaler * (OCR2A + 1)\<close> cycles of the \<^verbatim>\<open>AVR_CLOCK_FREQUENCY\<close> clock.
\<close>

definition tick_period_ns :: "'a avr_io_scheme \<Rightarrow> timer_regs \<Rightarrow> nat" where
  "tick_period_ns io t =
     (timer2_prescaler (bit (TCCR2B t) (CS22 io)) (bit (TCCR2B t) (CS21 io))
         (bit (TCCR2B t) (CS20 io))
       * (unat (OCR2A t) + 1) * 1000000000) div AVR_CLOCK_FREQUENCY"

text \<open>The timer registers after reset: all zero.\<close>

definition timer_reset :: timer_regs where
  "timer_reset = \<lparr> TCCR2A = 0, TCCR2B = 0, TIMSK2 = 0, OCR2A = 0, TCCR0B = 0, TIMSK0 = 0 \<rparr>"

section \<open>Scheduler (os_scheduler.c, os_scheduler.h)\<close>

text \<open>
  The scheduler's view of the machine: the array \<^verbatim>\<open>os_processes\<close> (indices below
  \<^verbatim>\<open>MAX_NUMBER_OF_PROCESSES\<close> are its elements) and the data memory that holds the process
  stacks.
\<close>

record os_state =
  os_processes :: "nat \<Rightarrow> Process"
  ram :: "16 word \<Rightarrow> 8 word"

text \<open>\<^verbatim>\<open>os_getProcessSlot\<close>: \<^verbatim>\<open>return os_processes + pid;\<close>\<close>

definition os_getProcessSlot :: "os_state \<Rightarrow> 8 word \<Rightarrow> Process" where
  "os_getProcessSlot s pid = os_processes s (unat pid)"

text \<open>\<^verbatim>\<open>PROCESS_STACK_BOTTOM(PID)\<close> as the 16-bit address that a stack pointer holds.\<close>

definition stack_bottom :: "'a avr_io_scheme \<Rightarrow> nat \<Rightarrow> 16 word" where
  "stack_bottom io pid = word_of_int (PROCESS_STACK_BOTTOM io pid)"

text \<open>
  \<^verbatim>\<open>os_getStackChecksum\<close> (os_scheduler.c). Its body is the directive
  \<^verbatim>\<open>#warning IMPLEMENT STH. HERE\<close> followed by \<^verbatim>\<open>return 0;\<close>: it reads neither the process
  table nor the memory and returns zero for every pid.
\<close>

definition os_getStackChecksum :: "os_state \<Rightarrow> 8 word \<Rightarrow> 8 word" where
  "os_getStackChecksum s pid = 0"

text \<open>
  The checksum as it is described, for comparison with the code: the fold of the bytes
  from \<open>sp + 1\<close> up to the bottom of the stack, which XORs each byte into a one-byte
  accumulator and rotates the accumulator left by one bit between bytes.
\<close>

fun byte_fold :: "8 word \<Rightarrow> 8 word list \<Rightarrow> 8 word" where
  "byte_fold acc [] = acc"
| "byte_fold acc [b] = acc XOR b"
| "byte_fold acc (b # b' # bs) = byte_fold (word_rotl 1 (acc XOR b)) (b' # bs)"

text \<open>The bytes from \<open>sp + 1\<close> up to the bottom of the stack of \<open>pid\<close>, lowest address first.\<close>

definition live_stack :: "'a avr_io_scheme \<Rightarrow> os_state \<Rightarrow> nat \<Rightarrow> 8 word list" where
  "live_stack io s pid =
     map (\<lambda>a. ram s (of_nat a))
       [unat (sp (os_processes s pid)) + 1 ..< unat (stack_bottom io pid) + 1]"

text \<open>
  Modelled from the spec: the body of \<^verbatim>\<open>os_exec\<close> is missing in os_scheduler.c
  (\<^verbatim>\<open>#error IMPLEMENT STH. HERE\<close>). The scan for a free slot goes through the slots in
  increasing order and stops at the first one whose state is \<^verbatim>\<open>OS_PS_UNUSED\<close>.
\<close>

function first_unused_slot :: "(nat \<Rightarrow> Process) \<Rightarrow> nat \<Rightarrow> nat option" where
  "first_unused_slot ps pid =
     (if pid < MAX_NUMBER_OF_PROCESSES then
        (if state (ps pid) = OS_PS_UNUSED then Some pid else first_unused_slot ps (pid + 1))
      else None)"
  by pat_completeness auto
termination
  by (relation "measure (\<lambda>(ps, pid). MAX_NUMBER_OF_PROCESSES - pid)") auto

declare first_unused_slot.simps [simp del]

text \<open>
  Modelled from the spec: the initial stack frame that \<^verbatim>\<open>os_exec\<close> lays down, pushed from
  the bottom of the stack like the hardware pushes (store at the stack pointer, then
  decrement it): the low byte of the entry address, its high byte, then 33 zero bytes,
  one for each general register and one for the status byte. The stack pointer of the
  new process is the address below the last byte pushed.
\<close>

definition stack_push ::
  "8 word \<Rightarrow> (16 word \<Rightarrow> 8 word) \<times> 16 word \<Rightarrow> (16 word \<Rightarrow> 8 word) \<times> 16 word" where
  "stack_push v ms = (case ms of (m, p) \<Rightarrow> (m(p := v), p - 1))"

definition initial_frame ::
  "(16 word \<Rightarrow> 8 word) \<Rightarrow> 16 word \<Rightarrow> 16 word \<Rightarrow> (16 word \<Rightarrow> 8 word) \<times> 16 word" where
  "initial_frame m bottom entry =
     (stack_push 0 ^^ 33)
       (stack_push (ucast (drop_bit 8 entry)) (stack_push (ucast entry) (m, bottom)))"

text \<open>
  Modelled from the spec: \<^verbatim>\<open>os_exec\<close>, whose body is missing in os_scheduler.c. A null
  program and a full table both return \<^verbatim>\<open>INVALID_PROCESS\<close> and change nothing. Otherwise
  the first unused slot gets the program, the priority, the state \<^verbatim>\<open>OS_PS_READY\<close>, the
  initial stack frame and the stack pointer above it, and then the checksum that
  \<^verbatim>\<open>os_getStackChecksum\<close> returns for it; its index is returned. The critical section
  around the body and the reset of the scheduling strategy's own bookkeeping for the
  slot act on state outside \<open>os_state\<close>.
\<close>

definition os_exec ::
  "'a avr_io_scheme \<Rightarrow> os_state \<Rightarrow> 16 word \<Rightarrow> 8 word \<Rightarrow> 8 word \<times> os_state" where
  "os_exec io s prog prio =
     (if prog = 0 then (INVALID_PROCESS, s)
      else
        (case first_unused_slot (os_processes s) 0 of
           None \<Rightarrow> (INVALID_PROCESS, s)
         | Some pid \<Rightarrow>
             (case initial_frame (ram s) (stack_bottom io pid) prog of
                (m, p) \<Rightarrow>
                  let s1 = s\<lparr> os_processes := (os_processes s)
                             (pid := \<lparr> state = OS_PS_READY, program = prog, priority = prio,
                                      sp = p, checksum = checksum (os_processes s pid) \<rparr>),
                           ram := m \<rparr>;
                      s2 = s1\<lparr> os_processes := (os_processes s1)
                             (pid := (os_processes s1 pid)
                                \<lparr> checksum := os_getStackChecksum s1 (of_nat pid) \<rparr>) \<rparr>
                  in (of_nat pid, s2))))"

text \<open>
  A process table with every slot unused and a zeroed memory, and the table of the
  gap-filling scenario: every slot ready except slot 2.
\<close>

definition empty_slot :: Process where
  "empty_slot = \<lparr> state = OS_PS_UNUSED, program = 0, priority = 0, sp = 0, checksum = 0 \<rparr>"

definition os_empty :: os_state where
  "os_empty = \<lparr> os_processes = (\<lambda>pid. empty_slot), ram = (\<lambda>a. 0) \<rparr>"

definition os_gap :: os_state where
  "os_gap = \<lparr> os_processes = (\<lambda>pid. if pid = 2 then empty_slot
       else empty_slot\<lparr> state := OS_PS_READY \<rparr>), ram = (\<lambda>a. 0) \<rparr>"

text \<open>
  A table whose slot 0 is ready with two live bytes on its stack, 0x12 at \<open>sp + 1\<close> and
  0x34 at the stack bottom of an ATmega644 (4127).
\<close>

definition os_ready0 :: os_state where
  "os_ready0 = \<lparr> os_processes = (\<lambda>pid. if pid = 0
       then \<lparr> state = OS_PS_READY, program = 0x1234, priority = 2, sp = 4125, checksum = 0 \<rparr>
       else empty_slot),
     ram = (\<lambda>a. if a = 4126 then 0x12 else if a = 4127 then 0x34 else 0) \<rparr>"

definition os_full :: os_state where
  "os_full = \<lparr> os_processes = (\<lambda>pid. empty_slot\<lparr> state := OS_PS_READY \<rparr>), ram = (\<lambda>a. 0) \<rparr>"

section \<open>Runnable processes\<close>

text \<open>
  C7: for every process record \<open>p\<close>, \<^verbatim>\<open>os_isRunnable\<close> called with a pointer to \<open>p\<close>
  returns true if and only if the state of \<open>p\<close> is \<^verbatim>\<open>OS_PS_READY\<close> or \<^verbatim>\<open>OS_PS_RUNNING\<close>.
\<close>

theorem os_isRunnable_iff:
  "os_isRunnable (Ptr p) = Inr (state p = OS_PS_READY \<or> state p = OS_PS_RUNNING)"
  by (simp add: os_isRunnable_def)

text \<open>
  C10: \<^verbatim>\<open>os_isRunnable\<close> is total over its pointer argument; called with the null pointer
  it returns false, and no call ends in a null dereference.
\<close>

theorem os_isRunnable_null:
  "os_isRunnable NULL = Inr False \<and> (\<forall>process. os_isRunnable process \<noteq> Inl NullDereference)"
proof
  show "os_isRunnable NULL = Inr False"
    by (simp add: os_isRunnable_def)
next
  show "\<forall>process. os_isRunnable process \<noteq> Inl NullDereference"
  proof
    fix process :: "Process pointer"
    show "os_isRunnable process \<noteq> Inl NullDereference"
      by (cases process) (simp_all add: os_isRunnable_def)
  qed
qed

section \<open>Stack layout\<close>

lemma STACK_SIZE_PROC_4096:
  assumes "AVR_MEMORY_SRAM io = 4096"
  shows "STACK_SIZE_PROC io = 228"
  using assms
  by (simp add: STACK_SIZE_PROC_def STACK_SIZE_MAIN_def STACK_SIZE_ISR_def
      MAX_NUMBER_OF_PROCESSES_def signed_divide_int_def)

lemma proc_stack_region_disjoint:
  assumes "STACK_SIZE_PROC io = 228" and "j \<noteq> k"
  shows "proc_stack_region io j \<inter> proc_stack_region io k = {}"
proof -
  have "j < k \<or> k < j" using assms(2) by arith
  then show ?thesis
    using assms(1)
    by (auto simp add: proc_stack_region_def PROCESS_STACK_BOTTOM_def)
qed

lemma proc_stack_region_below_isr:
  assumes "STACK_SIZE_PROC io = 228"
  shows "proc_stack_region io k \<inter> isr_stack_region io = {}"
    and "proc_stack_region io k \<inter> main_stack_region io = {}"
  using assms
  by (auto simp add: proc_stack_region_def isr_stack_region_def main_stack_region_def
      PROCESS_STACK_BOTTOM_def BOTTOM_OF_PROCS_STACK_def BOTTOM_OF_ISR_STACK_def
      STACK_SIZE_MAIN_def STACK_SIZE_ISR_def)

lemma AVR_MEMORY_SRAM_atmega644: "AVR_MEMORY_SRAM atmega644 = 4096"
  by (simp add: AVR_MEMORY_SRAM_def AVR_SRAM_END_def AVR_SRAM_START_def atmega644_def)

lemma BOTTOM_OF_PROCS_STACK_atmega644: "BOTTOM_OF_PROCS_STACK atmega644 = 4127"
  by (simp add: BOTTOM_OF_PROCS_STACK_def BOTTOM_OF_ISR_STACK_def BOTTOM_OF_MAIN_STACK_def
      AVR_SRAM_LAST_def STACK_SIZE_MAIN_def STACK_SIZE_ISR_def atmega644_def)

lemma stack_bottom_atmega644_0: "stack_bottom atmega644 0 = 4127"
  by (simp add: stack_bottom_def PROCESS_STACK_BOTTOM_def BOTTOM_OF_PROCS_STACK_atmega644)

text \<open>
  C6: with 4096 bytes of SRAM the stack size of a process is
  \<open>((4096 / 2) - 32 - 192) / 8 = 228\<close>, and the eight process stack regions are pairwise
  disjoint and disjoint from the scheduler (ISR) stack region and the main stack region.
\<close>

theorem stack_regions_disjoint:
  assumes "AVR_MEMORY_SRAM io = 4096"
  shows "STACK_SIZE_PROC io = 228
    \<and> (\<forall>j k. j < MAX_NUMBER_OF_PROCESSES \<and> k < MAX_NUMBER_OF_PROCESSES \<and> j \<noteq> k
          \<longrightarrow> proc_stack_region io j \<inter> proc_stack_region io k = {})
    \<and> (\<forall>k. k < MAX_NUMBER_OF_PROCESSES
          \<longrightarrow> proc_stack_region io k \<inter> isr_stack_region io = {}
            \<and> proc_stack_region io k \<inter> main_stack_region io = {})"
proof -
  have sz: "STACK_SIZE_PROC io = 228"
    using assms by (rule STACK_SIZE_PROC_4096)
  show ?thesis
    using sz proc_stack_region_disjoint [OF sz] proc_stack_region_below_isr [OF sz]
    by blast
qed

theorem stack_regions_disjoint_atmega644:
  "AVR_MEMORY_SRAM atmega644 = 4096
    \<and> STACK_SIZE_PROC atmega644 = 228
    \<and> proc_stack_region atmega644 0 = {3900 .. 4127}
    \<and> proc_stack_region atmega644 7 = {2304 .. 2531}
    \<and> proc_stack_region atmega644 0 \<inter> proc_stack_region atmega644 7 = {}
    \<and> proc_stack_region atmega644 7 \<inter> isr_stack_region atmega644 = {}
    \<and> proc_stack_region atmega644 7 \<inter> main_stack_region atmega644 = {}"
proof -
  note sram = AVR_MEMORY_SRAM_atmega644
  note bot = BOTTOM_OF_PROCS_STACK_atmega644
  have sz: "STACK_SIZE_PROC atmega644 = 228"
    using stack_regions_disjoint [OF sram] by simp
  have r0: "proc_stack_region atmega644 0 = {3900 .. 4127}"
    by (simp add: proc_stack_region_def PROCESS_STACK_BOTTOM_def sz bot)
  have r7: "proc_stack_region atmega644 7 = {2304 .. 2531}"
    by (simp add: proc_stack_region_def PROCESS_STACK_BOTTOM_def sz bot)
  have d07: "proc_stack_region atmega644 0 \<inter> proc_stack_region atmega644 7 = {}"
    using stack_regions_disjoint [OF sram] by (simp add: MAX_NUMBER_OF_PROCESSES_def)
  have d7: "proc_stack_region atmega644 7 \<inter> isr_stack_region atmega644 = {}
      \<and> proc_stack_region atmega644 7 \<inter> main_stack_region atmega644 = {}"
    using stack_regions_disjoint [OF sram] by (simp add: MAX_NUMBER_OF_PROCESSES_def)
  show ?thesis
    using sram sz r0 r7 d07 d7 by blast
qed

section \<open>Saving and restoring the context\<close>

lemma upt_0_31: "[0..<31] = [0, 1, 2, 3, 4, 5, 6, 7, 8, 9, 10, 11, 12, 13, 14, 15, 16, 17, 18,
    19, 20, 21, 22, 23, 24, 25, 26, 27, 28, 29, 30::nat]"
  by code_simp

lemma upt_0_32: "[0..<32] = [0, 1, 2, 3, 4, 5, 6, 7, 8, 9, 10, 11, 12, 13, 14, 15, 16, 17, 18,
    19, 20, 21, 22, 23, 24, 25, 26, 27, 28, 29, 30, 31::nat]"
  by code_simp

lemma upt_1_34: "[Suc 0..<34] = [1, 2, 3, 4, 5, 6, 7, 8, 9, 10, 11, 12, 13, 14, 15, 16, 17, 18,
    19, 20, 21, 22, 23, 24, 25, 26, 27, 28, 29, 30, 31, 32, 33::nat]"
  by code_simp

lemma saveContext_SP: "SP (saveContext c) = SP c - 33"
  by (simp add: saveContext_def saveContext_code_def)

lemma saveContext_SREG: "SREG (saveContext c) = ((SREG c AND NOT 0x80) AND NOT 0x1C) OR 0x02"
  by (simp add: saveContext_def saveContext_code_def)

lemma saveContext_R: "R (saveContext c) = (R c)(31 := SREG c, 1 := 0)"
  by (simp add: saveContext_def saveContext_code_def)

lemma saveContext_stack_top:
  "stack_top (saveContext c) 33 = map (R c) [0..<31] @ [SREG c, R c 31]"
  unfolding stack_top_def upt_0_31
  by (simp add: upt_1_34 saveContext_def saveContext_code_def)

lemma pushed_saveContext: "pushed saveContext_code = 31 # rev [0..<32]"
  unfolding upt_0_32 by (simp add: saveContext_code_def)

lemma popped_restoreContext: "popped restoreContext_code = [0..<32] @ [31]"
  unfolding upt_0_32 by (simp add: restoreContext_code_def)

text \<open>
  C4, as the code has it: \<^verbatim>\<open>saveContext\<close> pushes 33 bytes in a fixed order, namely r31,
  then the status byte, then r30 down to r0, and leaves the stack pointer 33 lower. Read
  upwards from the new stack pointer the frame is r0, ..., r30, the status byte, r31.
  The status byte is pushed once, with the value it had before \<^verbatim>\<open>cli\<close>; the register
  pushed twice is r31, first with its own value and then as the carrier of the status
  byte. Afterwards r31 holds the old status byte, r1 is zero, and the status register has
  the interrupt flag and the flags S, V, N cleared and Z set.
\<close>

theorem saveContext_frame:
  "pushed saveContext_code = 31 # rev [0..<32]
   \<and> SP (saveContext c) = SP c - 33
   \<and> stack_top (saveContext c) 33 = map (R c) [0..<31] @ [SREG c, R c 31]
   \<and> R (saveContext c) = (R c)(31 := SREG c, 1 := 0)
   \<and> SREG (saveContext c) = ((SREG c AND NOT 0x80) AND NOT 0x1C) OR 0x02"
  using pushed_saveContext saveContext_SP saveContext_stack_top saveContext_R saveContext_SREG
  by blast

text \<open>
  C4, as stated, fails: with r31 = 0xBF and status 0x81 (interrupt flag set), the first
  byte pushed is 0xBF, the value of r31 and not the status, and the second byte pushed is
  0x81, the status as it was and not the status with the interrupt flag cleared (0x01).
\<close>

theorem saveContext_status_once:
  "SREG cpu0 = 0x81
   \<and> SRAM (saveContext cpu0) (SP cpu0) = 0xBF
   \<and> SRAM (saveContext cpu0) (SP cpu0 - 1) = 0x81
   \<and> \<not> status_pushed_twice cpu0"
  by (simp add: status_pushed_twice_def saveContext_def saveContext_code_def cpu0_def)

lemma roundtrip_R: "R (restoreContext (saveContext c)) = R c"
  by (rule ext)
    (simp add: saveContext_def saveContext_code_def restoreContext_def restoreContext_code_def)

lemma roundtrip_SP: "SP (restoreContext (saveContext c)) = SP c + 2"
  by (simp add: saveContext_def saveContext_code_def restoreContext_def restoreContext_code_def)

lemma roundtrip_SREG: "SREG (restoreContext (saveContext c)) = SREG c OR 0x80"
  by (simp add: saveContext_def saveContext_code_def restoreContext_def restoreContext_code_def)

lemma roundtrip_PC:
  "PC (restoreContext (saveContext c))
     = push_bit 8 (ucast (SRAM c (SP c + 1))) OR ucast (SRAM c (SP c + 2))"
  by (simp add: saveContext_def saveContext_code_def restoreContext_def restoreContext_code_def)

lemma before_reti:
  "R (fold step (butlast restoreContext_code) (saveContext c)) = R c"
  "SREG (fold step (butlast restoreContext_code) (saveContext c)) = SREG c"
  "SP (fold step (butlast restoreContext_code) (saveContext c)) = SP c"
proof -
  show "R (fold step (butlast restoreContext_code) (saveContext c)) = R c"
    by (rule ext) (simp add: saveContext_def saveContext_code_def restoreContext_code_def)
  show "SREG (fold step (butlast restoreContext_code) (saveContext c)) = SREG c"
    by (simp add: saveContext_def saveContext_code_def restoreContext_code_def)
  show "SP (fold step (butlast restoreContext_code) (saveContext c)) = SP c"
    by (simp add: saveContext_def saveContext_code_def restoreContext_code_def)
qed

text \<open>
  C5, as the code has it: \<^verbatim>\<open>restoreContext\<close> pops the registers that \<^verbatim>\<open>saveContext\<close> pushed
  in reverse order, and run on the frame that \<^verbatim>\<open>saveContext\<close> laid down it restores all 32
  general registers. Up to its last instruction the status byte and the stack pointer are
  back at their values before the save as well; the closing \<^verbatim>\<open>reti\<close> then sets the global
  interrupt flag and pops the two bytes of the return address that lie under the frame
  into the program counter, so that the macro ends with the status byte of before with
  the interrupt flag set and with the stack pointer two above its value before the save.
\<close>

theorem restoreContext_saveContext:
  "popped restoreContext_code = rev (pushed saveContext_code)
   \<and> last restoreContext_code = RETI
   \<and> R (fold step (butlast restoreContext_code) (saveContext c)) = R c
   \<and> SREG (fold step (butlast restoreContext_code) (saveContext c)) = SREG c
   \<and> SP (fold step (butlast restoreContext_code) (saveContext c)) = SP c
   \<and> R (restoreContext (saveContext c)) = R c
   \<and> SREG (restoreContext (saveContext c)) = SREG c OR 0x80
   \<and> SP (restoreContext (saveContext c)) = SP c + 2
   \<and> PC (restoreContext (saveContext c))
       = push_bit 8 (ucast (SRAM c (SP c + 1))) OR ucast (SRAM c (SP c + 2))"
proof -
  have "last restoreContext_code = RETI"
    by (simp add: restoreContext_code_def)
  then show ?thesis
    using roundtrip_R roundtrip_SREG roundtrip_SP roundtrip_PC before_reti
    by (simp add: pushed_saveContext popped_restoreContext)
qed

text \<open>
  C5, as stated, fails: from a state with the interrupt flag cleared (status 0x01) and
  the stack pointer at 0x0F3B, the pair ends with status 0x81 and the stack pointer at
  0x0F3D, having loaded the program counter from the two bytes in between.
\<close>

theorem context_round_trip_fails:
  "SREG cpu_in_isr = 0x01
   \<and> SREG (restoreContext (saveContext cpu_in_isr)) = 0x81
   \<and> SP cpu_in_isr = 0x0F3B
   \<and> SP (restoreContext (saveContext cpu_in_isr)) = 0x0F3D
   \<and> PC (restoreContext (saveContext cpu_in_isr)) = 0x1234
   \<and> \<not> context_round_trip cpu_in_isr"
  by (simp add: context_round_trip_def saveContext_def saveContext_code_def restoreContext_def
      restoreContext_code_def cpu_in_isr_def cpu0_def)

section \<open>Timer initialisation\<close>

lemma bit_sbi: "bit (sbi x b) n \<longleftrightarrow> bit x n \<or> (n = b \<and> n < 8)"
  by (auto simp add: sbi_def bit_simps)

lemma bit_cbi: "bit (cbi x b) n \<longleftrightarrow> bit x n \<and> n \<noteq> b"
  by (auto simp add: cbi_def bit_simps dest: bit_imp_le_length)

lemma os_init_timer_TCCR2B:
  "TCCR2B (os_init_timer io t) = sbi (sbi (sbi (TCCR2B t) (CS22 io)) (CS21 io)) (CS20 io)"
  by (simp add: os_init_timer_def Let_def)

text \<open>
  C8: \<^verbatim>\<open>os_init_timer\<close> sets the clear-on-compare-match bit WGM21 of timer 2, sets all
  three clock select bits CS22, CS21, CS20 (prescaler 1024), enables the compare match
  interrupt (OCIE2A) and sets the compare value \<^verbatim>\<open>OCR2A\<close> to 60; at 20 MHz a tick then
  takes 1024 * 61 / 20 MHz = 3.1232 ms, about 3.1 ms. The bit positions come from the
  device header and are below 8.
\<close>

theorem os_init_timer_scheduler:
  assumes "WGM21 io < 8" and "CS22 io < 8" and "CS21 io < 8" and "CS20 io < 8"
    and "OCIE2A io < 8"
  shows "bit (TCCR2A (os_init_timer io t)) (WGM21 io)
    \<and> bit (TCCR2B (os_init_timer io t)) (CS22 io)
    \<and> bit (TCCR2B (os_init_timer io t)) (CS21 io)
    \<and> bit (TCCR2B (os_init_timer io t)) (CS20 io)
    \<and> bit (TIMSK2 (os_init_timer io t)) (OCIE2A io)
    \<and> OCR2A (os_init_timer io t) = 60
    \<and> tick_period_ns io (os_init_timer io t) = 3123200
    \<and> 3050000 \<le> tick_period_ns io (os_init_timer io t)
    \<and> tick_period_ns io (os_init_timer io t) < 3150000"
proof -
  have a: "bit (TCCR2A (os_init_timer io t)) (WGM21 io)"
    using assms(1) by (simp add: os_init_timer_def Let_def bit_sbi)
  have b: "bit (TCCR2B (os_init_timer io t)) (CS22 io)"
    "bit (TCCR2B (os_init_timer io t)) (CS21 io)"
    "bit (TCCR2B (os_init_timer io t)) (CS20 io)"
    using assms(2-4) by (simp_all add: os_init_timer_TCCR2B bit_sbi)
  have c: "bit (TIMSK2 (os_init_timer io t)) (OCIE2A io)"
    using assms(5) by (simp add: os_init_timer_def Let_def bit_sbi)
  have d: "OCR2A (os_init_timer io t) = 60"
    by (simp add: os_init_timer_def Let_def)
  have e: "tick_period_ns io (os_init_timer io t) = 3123200"
    using b by (simp add: tick_period_ns_def d AVR_CLOCK_FREQUENCY_def)
  show ?thesis using a b c d e by simp
qed

text \<open>
  C8 on the ATmega644, from the reset values of the registers.
\<close>

theorem os_init_timer_scheduler_atmega644:
  "WGM21 atmega644 < 8 \<and> CS22 atmega644 < 8 \<and> CS21 atmega644 < 8 \<and> CS20 atmega644 < 8
    \<and> OCIE2A atmega644 < 8
    \<and> TCCR2A (os_init_timer atmega644 timer_reset) = 0x02
    \<and> TCCR2B (os_init_timer atmega644 timer_reset) = 0x07
    \<and> TIMSK2 (os_init_timer atmega644 timer_reset) = 0x02
    \<and> OCR2A (os_init_timer atmega644 timer_reset) = 60
    \<and> tick_period_ns atmega644 (os_init_timer atmega644 timer_reset) = 3123200"
proof -
  have h: "WGM21 atmega644 < 8" "CS22 atmega644 < 8" "CS21 atmega644 < 8" "CS20 atmega644 < 8"
    "OCIE2A atmega644 < 8"
    by (simp_all add: atmega644_def)
  have v: "TCCR2A (os_init_timer atmega644 timer_reset) = 0x02"
    "TCCR2B (os_init_timer atmega644 timer_reset) = 0x07"
    "TIMSK2 (os_init_timer atmega644 timer_reset) = 0x02"
    by (simp_all add: os_init_timer_def Let_def sbi_def cbi_def atmega644_def timer_reset_def)
  show ?thesis
    using h v os_init_timer_scheduler [OF h, of timer_reset] by simp
qed

section \<open>The autostart list\<close>

lemma chain_update:
  assumes "chain ns p as" and "a \<notin> set as"
  shows "chain (ns(a := v)) p as"
  using assms by (induction as arbitrary: p) auto

lemma chain_programs:
  assumes "chain ns p as" and "length as \<le> fuel"
  shows "autostart_programs fuel ns p
           = Some (map (\<lambda>a. program_linked_list_node.program (ns a)) as)"
  using assms
proof (induction as arbitrary: p fuel)
  case Nil
  then show ?case by simp
next
  case (Cons a as)
  then obtain fuel' where f: "fuel = Suc fuel'" "length as \<le> fuel'"
    by (cases fuel) auto
  from Cons.prems(1) have p: "p = Ptr a" and c: "chain ns (next (ns a)) as"
    by simp_all
  show ?case
    using Cons.IH [OF c f(2)] by (simp add: p f(1))
qed

lemma register_autostart_program:
  "program_linked_list_node.program (nodes (register_autostart a img) b)
     = program_linked_list_node.program (nodes img b)"
  by (simp add: register_autostart_def)

lemma run_constructors_program:
  "program_linked_list_node.program (nodes (run_constructors order img) b)
     = program_linked_list_node.program (nodes img b)"
  unfolding run_constructors_def
  by (induction order arbitrary: img) (simp_all add: register_autostart_program)

lemma run_constructors_snoc:
  "run_constructors (order @ [a]) img = register_autostart a (run_constructors order img)"
  by (simp add: run_constructors_def)

lemma run_constructors_chain:
  assumes "distinct order" and "autostart_head img = NULL"
  shows "chain (nodes (run_constructors order img))
           (autostart_head (run_constructors order img)) (rev order)"
  using assms
proof (induction order rule: rev_induct)
  case Nil
  then show ?case by (simp add: run_constructors_def)
next
  case (snoc a order)
  let ?img = "run_constructors order img"
  let ?ns = "(nodes ?img)(a := (nodes ?img a)\<lparr> next := autostart_head ?img \<rparr>)"
  from snoc have c: "chain (nodes ?img) (autostart_head ?img) (rev order)"
    and a: "a \<notin> set (rev order)"
    by simp_all
  have "chain ?ns (autostart_head ?img) (rev order)"
    using c a by (rule chain_update)
  moreover have "next (?ns a) = autostart_head ?img"
    by simp
  ultimately have "chain ?ns (Ptr a) (a # rev order)"
    by (simp only: chain.simps)
  moreover have "nodes (run_constructors (order @ [a]) img) = ?ns"
    and "autostart_head (run_constructors (order @ [a]) img) = Ptr a"
    by (simp_all add: run_constructors_snoc register_autostart_def)
  ultimately show ?case
    by (simp only: rev_append rev.simps append.simps)
qed

lemma static_node_programs:
  assumes "distinct (map fst expansions)"
  shows "map (\<lambda>a. program_linked_list_node.program (static_node expansions a))
           (map fst expansions) = map snd expansions"
proof -
  have "program_linked_list_node.program (static_node expansions a) = p"
    if "(a, p) \<in> set expansions" for a p
    using assms that by (simp add: static_node_def)
  then show ?thesis
    by (auto simp add: map_eq_conv)
qed

text \<open>
  C9: \<^verbatim>\<open>autostart_head\<close> is initially null, and every expansion of \<^verbatim>\<open>REGISTER_AUTOSTART\<close>
  has its own node and its constructor runs once before \<^verbatim>\<open>main\<close>, prepending that node.
  Then the walk from \<^verbatim>\<open>autostart_head\<close> ends after as many steps as there are expansions
  and yields exactly the registered programs in reverse order of constructor execution,
  the most recently registered one first.
\<close>

theorem autostart_list_reversed:
  assumes "distinct (map fst expansions)" and "length expansions \<le> fuel"
  shows "autostart_head (load_image expansions) = NULL
    \<and> autostart_programs fuel
         (nodes (run_constructors (map fst expansions) (load_image expansions)))
         (autostart_head (run_constructors (map fst expansions) (load_image expansions)))
       = Some (rev (map snd expansions))"
proof -
  let ?img = "run_constructors (map fst expansions) (load_image expansions)"
  have h: "autostart_head (load_image expansions) = NULL"
    by (simp add: load_image_def)
  have c: "chain (nodes ?img) (autostart_head ?img) (rev (map fst expansions))"
    using assms(1) h by (rule run_constructors_chain)
  have "autostart_programs fuel (nodes ?img) (autostart_head ?img)
      = Some (map (\<lambda>a. program_linked_list_node.program (nodes ?img a))
          (rev (map fst expansions)))"
    using c assms(2) by (intro chain_programs) simp_all
  also have "map (\<lambda>a. program_linked_list_node.program (nodes ?img a))
          (rev (map fst expansions))
      = rev (map (\<lambda>a. program_linked_list_node.program (static_node expansions a))
          (map fst expansions))"
    by (simp add: run_constructors_program load_image_def rev_map)
  also have "\<dots> = rev (map snd expansions)"
    using assms(1) by (simp only: static_node_programs)
  finally show ?thesis using h by simp
qed

text \<open>
  C9 on four registrations, as in progs.c.
\<close>

theorem autostart_list_reversed_progs:
  "distinct (map fst [(10 :: nat, 0x0100 :: 16 word), (20, 0x0200), (30, 0x0300), (40, 0x0400)])
   \<and> autostart_head (run_constructors [10, 20, 30, 40]
        (load_image [(10, 0x0100), (20, 0x0200), (30, 0x0300), (40, 0x0400)])) = Ptr 40
   \<and> autostart_programs 4
        (nodes (run_constructors [10, 20, 30, 40]
          (load_image [(10, 0x0100), (20, 0x0200), (30, 0x0300), (40, 0x0400)])))
        (autostart_head (run_constructors [10, 20, 30, 40]
          (load_image [(10, 0x0100), (20, 0x0200), (30, 0x0300), (40, 0x0400)])))
      = Some [0x0400, 0x0300, 0x0200, 0x0100]"
proof -
  let ?e = "[(10, 0x0100), (20, 0x0200), (30, 0x0300), (40::nat, 0x0400 :: 16 word)]"
  have d: "distinct (map fst ?e)" by simp
  have l: "length ?e \<le> 4" by simp
  have hd: "autostart_head (run_constructors [10, 20, 30, 40] (load_image ?e)) = Ptr 40"
    by (simp add: run_constructors_def register_autostart_def)
  show ?thesis
    using d hd autostart_list_reversed [OF d l] by simp
qed

text \<open>
  Each node must be registered once: a constructor that runs a second time makes its node
  its own successor, and the walk from the head never reaches the null pointer.
\<close>

lemma register_autostart_twice:
  "autostart_programs fuel (nodes (run_constructors [a, a] img))
     (autostart_head (run_constructors [a, a] img)) = None"
proof -
  let ?img = "run_constructors [a, a] img"
  have h: "autostart_head ?img = Ptr a" and n: "next (nodes ?img a) = Ptr a"
    by (simp_all add: run_constructors_def register_autostart_def)
  have "autostart_programs fuel (nodes ?img) (Ptr a) = None"
    by (induction fuel) (simp_all add: n)
  then show ?thesis by (simp only: h)
qed

section \<open>Process creation\<close>

lemma first_unused_slot_os_empty: "first_unused_slot (os_processes os_empty) 0 = Some 0"
  by (simp add: first_unused_slot.simps [of _ 0] os_empty_def empty_slot_def
      MAX_NUMBER_OF_PROCESSES_def)

lemma first_unused_slot_os_gap: "first_unused_slot (os_processes os_gap) 0 = Some 2"
  by (simp add: first_unused_slot.simps [of _ 0] first_unused_slot.simps [of _ "Suc 0"]
      first_unused_slot.simps [of _ "Suc (Suc 0)"] os_gap_def empty_slot_def MAX_NUMBER_OF_PROCESSES_def)

lemma first_unused_slot_Some:
  "first_unused_slot ps i = Some k \<Longrightarrow>
     i \<le> k \<and> k < MAX_NUMBER_OF_PROCESSES \<and> state (ps k) = OS_PS_UNUSED
     \<and> (\<forall>j. i \<le> j \<and> j < k \<longrightarrow> state (ps j) \<noteq> OS_PS_UNUSED)"
proof (induction ps i rule: first_unused_slot.induct)
  case (1 ps pid)
  show ?case
  proof (cases "pid < MAX_NUMBER_OF_PROCESSES \<and> state (ps pid) \<noteq> OS_PS_UNUSED")
    case True
    then have "first_unused_slot ps (pid + 1) = Some k"
      using "1.prems" by (simp add: first_unused_slot.simps [of ps pid])
    then have "pid + 1 \<le> k \<and> k < MAX_NUMBER_OF_PROCESSES \<and> state (ps k) = OS_PS_UNUSED
      \<and> (\<forall>j. pid + 1 \<le> j \<and> j < k \<longrightarrow> state (ps j) \<noteq> OS_PS_UNUSED)"
      using True "1.IH" by simp
    moreover have "j = pid \<or> pid + 1 \<le> j" if "pid \<le> j" for j
      using that by arith
    ultimately show ?thesis
      using True by auto
  next
    case False
    then show ?thesis
      using "1.prems" by (auto simp add: first_unused_slot.simps [of ps pid] split: if_splits)
  qed
qed

lemma first_unused_slot_None:
  "first_unused_slot ps i = None \<Longrightarrow>
     (\<forall>j. i \<le> j \<and> j < MAX_NUMBER_OF_PROCESSES \<longrightarrow> state (ps j) \<noteq> OS_PS_UNUSED)"
proof (induction ps i rule: first_unused_slot.induct)
  case (1 ps pid)
  show ?case
  proof (cases "pid < MAX_NUMBER_OF_PROCESSES")
    case True
    then have u: "state (ps pid) \<noteq> OS_PS_UNUSED"
      and n: "first_unused_slot ps (pid + 1) = None"
      using "1.prems" by (auto simp add: first_unused_slot.simps [of ps pid] split: if_splits)
    have "\<forall>j. pid + 1 \<le> j \<and> j < MAX_NUMBER_OF_PROCESSES \<longrightarrow> state (ps j) \<noteq> OS_PS_UNUSED"
      using True u n "1.IH" by simp
    moreover have "j = pid \<or> pid + 1 \<le> j" if "pid \<le> j" for j
      using that by arith
    ultimately show ?thesis
      using u by auto
  next
    case False
    then show ?thesis by auto
  qed
qed

lemma unat_of_nat_pid:
  "k < MAX_NUMBER_OF_PROCESSES \<Longrightarrow> unat (of_nat k :: 8 word) = k"
  by (simp add: MAX_NUMBER_OF_PROCESSES_def unat_of_nat)

lemma os_exec_invalid:
  assumes "prog = 0 \<or> first_unused_slot (os_processes s) 0 = None"
  shows "os_exec io s prog prio = (INVALID_PROCESS, s)"
  using assms by (auto simp add: os_exec_def)

lemma os_exec_valid:
  assumes "prog \<noteq> 0" and "first_unused_slot (os_processes s) 0 = Some k"
  shows "fst (os_exec io s prog prio) = of_nat k"
    and "state (os_processes (snd (os_exec io s prog prio)) k) = OS_PS_READY"
    and "program (os_processes (snd (os_exec io s prog prio)) k) = prog"
    and "priority (os_processes (snd (os_exec io s prog prio)) k) = prio"
    and "sp (os_processes (snd (os_exec io s prog prio)) k)
           = snd (initial_frame (ram s) (stack_bottom io k) prog)"
    and "ram (snd (os_exec io s prog prio))
           = fst (initial_frame (ram s) (stack_bottom io k) prog)"
  using assms by (simp_all add: os_exec_def Let_def split: prod.split)

text \<open>
  C1: \<^verbatim>\<open>os_exec\<close> returns \<^verbatim>\<open>INVALID_PROCESS\<close> (255) if the program pointer is null or no slot
  is unused. Otherwise it returns the smallest pid whose slot was unused, which is below
  \<^verbatim>\<open>MAX_NUMBER_OF_PROCESSES\<close> = 8, and afterwards that slot is in state \<^verbatim>\<open>OS_PS_READY\<close> and
  its program is the argument.
\<close>

theorem os_exec_result:
  "(prog = 0 \<or> (\<forall>k. k < MAX_NUMBER_OF_PROCESSES \<longrightarrow> state (os_processes s k) \<noteq> OS_PS_UNUSED)
      \<longrightarrow> fst (os_exec io s prog prio) = INVALID_PROCESS)
   \<and> (prog \<noteq> 0 \<and> (\<exists>k. k < MAX_NUMBER_OF_PROCESSES \<and> state (os_processes s k) = OS_PS_UNUSED)
      \<longrightarrow> unat (fst (os_exec io s prog prio)) < MAX_NUMBER_OF_PROCESSES
        \<and> state (os_processes s (unat (fst (os_exec io s prog prio)))) = OS_PS_UNUSED
        \<and> (\<forall>j. j < unat (fst (os_exec io s prog prio))
              \<longrightarrow> state (os_processes s j) \<noteq> OS_PS_UNUSED)
        \<and> state (os_getProcessSlot (snd (os_exec io s prog prio))
                  (fst (os_exec io s prog prio))) = OS_PS_READY
        \<and> program (os_getProcessSlot (snd (os_exec io s prog prio))
                  (fst (os_exec io s prog prio))) = prog)"
proof (intro conjI impI)
  assume "prog = 0 \<or> (\<forall>k. k < MAX_NUMBER_OF_PROCESSES \<longrightarrow> state (os_processes s k) \<noteq> OS_PS_UNUSED)"
  then have "prog = 0 \<or> first_unused_slot (os_processes s) 0 = None"
    using first_unused_slot_Some [of "os_processes s" 0]
    by (cases "first_unused_slot (os_processes s) 0") auto
  then show "fst (os_exec io s prog prio) = INVALID_PROCESS"
    by (simp add: os_exec_invalid)
next
  assume a: "prog \<noteq> 0 \<and> (\<exists>k. k < MAX_NUMBER_OF_PROCESSES \<and> state (os_processes s k) = OS_PS_UNUSED)"
  then obtain k where k: "first_unused_slot (os_processes s) 0 = Some k"
    using first_unused_slot_None [of "os_processes s" 0]
    by (cases "first_unused_slot (os_processes s) 0") auto
  note f = first_unused_slot_Some [OF k]
  note e = os_exec_valid [of prog s k io prio]
  have p: "fst (os_exec io s prog prio) = of_nat k" and u: "unat (of_nat k :: 8 word) = k"
    using a k e(1) f by (simp_all add: unat_of_nat_pid)
  show "unat (fst (os_exec io s prog prio)) < MAX_NUMBER_OF_PROCESSES"
    using f by (simp add: p u)
  show "state (os_processes s (unat (fst (os_exec io s prog prio)))) = OS_PS_UNUSED"
    using f by (simp add: p u)
  show "\<forall>j. j < unat (fst (os_exec io s prog prio)) \<longrightarrow> state (os_processes s j) \<noteq> OS_PS_UNUSED"
    using f by (simp add: p u)
  show "state (os_getProcessSlot (snd (os_exec io s prog prio))
          (fst (os_exec io s prog prio))) = OS_PS_READY"
    using a k e(2) by (simp add: os_getProcessSlot_def p u)
  show "program (os_getProcessSlot (snd (os_exec io s prog prio))
          (fst (os_exec io s prog prio))) = prog"
    using a k e(3) by (simp add: os_getProcessSlot_def p u)
qed

text \<open>
  C1 on the scenarios of the unit test: a null program, a full table, and a table whose
  only free slot is slot 2.
\<close>

theorem os_exec_result_scenarios:
  "fst (os_exec atmega644 os_empty 0 DEFAULT_PRIORITY) = INVALID_PROCESS
   \<and> fst (os_exec atmega644 os_full 0x0123 DEFAULT_PRIORITY) = INVALID_PROCESS
   \<and> fst (os_exec atmega644 os_gap 0x0123 DEFAULT_PRIORITY) = 2
   \<and> state (os_getProcessSlot os_gap 2) = OS_PS_UNUSED
   \<and> state (os_getProcessSlot (snd (os_exec atmega644 os_gap 0x0123 DEFAULT_PRIORITY)) 2) = OS_PS_READY
   \<and> program (os_getProcessSlot (snd (os_exec atmega644 os_gap 0x0123 DEFAULT_PRIORITY)) 2) = 0x0123"
proof -
  have full: "\<forall>k. k < MAX_NUMBER_OF_PROCESSES \<longrightarrow> state (os_processes os_full k) \<noteq> OS_PS_UNUSED"
    by (simp add: os_full_def)
  have gap: "(0x0123 :: 16 word) \<noteq> 0
      \<and> (\<exists>k. k < MAX_NUMBER_OF_PROCESSES \<and> state (os_processes os_gap k) = OS_PS_UNUSED)"
    by (auto simp add: os_gap_def empty_slot_def MAX_NUMBER_OF_PROCESSES_def intro: exI [of _ 2])
  have pid: "fst (os_exec atmega644 os_gap 0x0123 DEFAULT_PRIORITY) = 2"
    using os_exec_valid(1) [OF _ first_unused_slot_os_gap, of "0x0123" atmega644 DEFAULT_PRIORITY] by simp
  have u: "state (os_getProcessSlot os_gap 2) = OS_PS_UNUSED"
    by (simp add: os_getProcessSlot_def os_gap_def empty_slot_def)
  show ?thesis
    using os_exec_result [of 0 os_empty atmega644 DEFAULT_PRIORITY]
      os_exec_result [of "0x0123" os_full atmega644 DEFAULT_PRIORITY] full
      os_exec_result [of "0x0123" os_gap atmega644 DEFAULT_PRIORITY] gap pid u
    by simp
qed

lemma funpow_33: "(f ^^ 33) x = (f ^^ 11) ((f ^^ 11) ((f ^^ 11) x))"
proof -
  have "(33::nat) = 11 + (11 + 11)" by simp
  then show ?thesis by (simp only: funpow_add o_apply)
qed

lemma funpow_11: "(f ^^ 11) x = f (f (f (f (f (f (f (f (f (f (f x))))))))))"
  by (simp add: eval_nat_numeral)

lemma initial_frame_sp: "snd (initial_frame m b e) = b - 35"
  by (simp add: initial_frame_def funpow_33 funpow_11 stack_push_def)

lemma initial_frame_zeros:
  "map (\<lambda>i. fst (initial_frame m b e) (b - 35 + of_nat i)) [Suc 0..<34] = replicate 33 0"
proof -
  have r: "replicate 33 (0 :: 8 word) = replicate 11 0 @ replicate 11 0 @ replicate 11 0"
    by (simp flip: replicate_add)
  have r11: "replicate 11 (0 :: 8 word) = [0, 0, 0, 0, 0, 0, 0, 0, 0, 0, 0]"
    by (simp add: eval_nat_numeral)
  show ?thesis
    unfolding upt_1_34 r r11
    by (simp add: initial_frame_def funpow_33 funpow_11 stack_push_def)
qed

lemma initial_frame_address:
  "fst (initial_frame m b e) (b - 35 + 34) = ucast (drop_bit 8 e)"
  "fst (initial_frame m b e) (b - 35 + 35) = ucast e"
  by (simp_all add: initial_frame_def funpow_33 funpow_11 stack_push_def)

text \<open>
  C2: after \<^verbatim>\<open>os_exec\<close> has succeeded on a slot, the slot's stack pointer is
  \<^verbatim>\<open>PROCESS_STACK_BOTTOM\<close> of the slot minus 35, the 33 bytes at \<open>sp + 1 .. sp + 33\<close> are
  zero, the byte at \<open>sp + 34\<close> is the high byte of the entry address and the byte at
  \<open>sp + 35\<close> is its low byte.
\<close>

theorem os_exec_initial_frame:
  assumes "os_exec io s entry prio = (pid, s')" and "pid \<noteq> INVALID_PROCESS"
  shows "sp (os_getProcessSlot s' pid) = stack_bottom io (unat pid) - 35
    \<and> map (\<lambda>i. ram s' (sp (os_getProcessSlot s' pid) + of_nat i)) [1..<34] = replicate 33 0
    \<and> ram s' (sp (os_getProcessSlot s' pid) + 34) = ucast (drop_bit 8 entry)
    \<and> ram s' (sp (os_getProcessSlot s' pid) + 35) = ucast entry"
proof -
  have n: "\<not> (entry = 0 \<or> first_unused_slot (os_processes s) 0 = None)"
    using assms os_exec_invalid [of entry s io prio] by auto
  then have e: "entry \<noteq> 0"
    by simp
  from n obtain k where k: "first_unused_slot (os_processes s) 0 = Some k"
    by auto
  have u: "unat (of_nat k :: 8 word) = k"
    using first_unused_slot_Some [OF k] by (simp add: unat_of_nat_pid)
  note v = os_exec_valid [OF e k, of io prio]
  have p: "pid = of_nat k" and s': "s' = snd (os_exec io s entry prio)"
    using v(1) assms(1) by simp_all
  have sp: "sp (os_getProcessSlot s' pid) = stack_bottom io k - 35"
    by (simp add: os_getProcessSlot_def p u s' v(5) initial_frame_sp)
  have m: "ram s' = fst (initial_frame (ram s) (stack_bottom io k) entry)"
    by (simp add: s' v(6))
  have b: "stack_bottom io (unat pid) = stack_bottom io k"
    by (simp add: p u)
  show ?thesis
    unfolding sp m b
    using initial_frame_zeros [of "ram s" "stack_bottom io k" entry]
      initial_frame_address [of "ram s" "stack_bottom io k" entry]
    by simp
qed

text \<open>
  C2 on the scenario of the unit test: \<^verbatim>\<open>os_exec\<close> on the empty table of an ATmega644
  takes slot 0, whose stack bottom is 4127.
\<close>

theorem os_exec_initial_frame_slot0:
  "fst (os_exec atmega644 os_empty 0x1234 10) = 0
   \<and> sp (os_getProcessSlot (snd (os_exec atmega644 os_empty 0x1234 10)) 0) = 4092
   \<and> map (\<lambda>i. ram (snd (os_exec atmega644 os_empty 0x1234 10)) (4092 + of_nat i)) [1..<34]
       = replicate 33 0
   \<and> ram (snd (os_exec atmega644 os_empty 0x1234 10)) (4092 + 34) = 0x12
   \<and> ram (snd (os_exec atmega644 os_empty 0x1234 10)) (4092 + 35) = 0x34"
proof -
  let ?r = "os_exec atmega644 os_empty 0x1234 10"
  have pid: "fst ?r = 0"
    using os_exec_valid(1) [OF _ first_unused_slot_os_empty, of "0x1234" atmega644 10] by simp
  have r: "?r = (0, snd ?r)"
    using pid by (simp add: prod_eq_iff)
  have v: "(0 :: 8 word) \<noteq> INVALID_PROCESS"
    by (simp add: INVALID_PROCESS_def)
  have sp: "sp (os_getProcessSlot (snd ?r) 0) = 4092"
    using os_exec_initial_frame [OF r v] by (simp add: stack_bottom_atmega644_0)
  show ?thesis
    using os_exec_initial_frame [OF r v] pid unfolding sp by simp
qed

section \<open>Stack checksum\<close>

lemma live_stack_os_ready0: "live_stack atmega644 os_ready0 0 = [0x12, 0x34]"
proof -
  have "[4126..<4128] = [4126, 4127 :: nat]"
    by code_simp
  then show ?thesis
    by (simp add: live_stack_def stack_bottom_atmega644_0 os_ready0_def)
qed

text \<open>
  C3 fails on the code: slot 0 of the table is ready and the bytes from \<open>sp + 1\<close> to the
  bottom of its stack are 0x12 and 0x34, whose fold (XOR, rotate left by one bit between
  bytes) is 0x10, but \<^verbatim>\<open>os_getStackChecksum\<close> returns 0. It returns 0 for every content
  of the stack, so a single flipped bit at \<open>sp + 1\<close> does not change it either, which
  the stack consistency test requires to be detected.
\<close>

theorem os_getStackChecksum_returns_zero:
  "state (os_getProcessSlot os_ready0 0) = OS_PS_READY
   \<and> live_stack atmega644 os_ready0 0 = [0x12, 0x34]
   \<and> byte_fold 0 (live_stack atmega644 os_ready0 0) = 0x10
   \<and> os_getStackChecksum os_ready0 0 = 0
   \<and> os_getStackChecksum (os_ready0\<lparr> ram := (ram os_ready0)(4126 := 0x13) \<rparr>) 0
       = os_getStackChecksum os_ready0 0"
proof -
  have "state (os_getProcessSlot os_ready0 0) = OS_PS_READY"
    by (simp add: os_getProcessSlot_def os_ready0_def)
  moreover have "byte_fold 0 [0x12, 0x34] = (0x10 :: 8 word)"
    by code_simp
  then have "byte_fold 0 (live_stack atmega644 os_ready0 0) = 0x10"
    by (simp only: live_stack_os_ready0)
  ultimately show ?thesis
    by (simp add: live_stack_os_ready0 os_getStackChecksum_def)
qed

text \<open>
  The described fold against the stack consistency test
  (tests/v2/6 Stack Consistency/progs.c): the test flips bit 0 of the two bytes at
  \<open>sp + 1\<close> and \<open>sp + 2\<close> of a suspended process and expects the next resume not to
  report a checksum error ("Double bitflip detected" is its failure message). A fold
  that rotates between bytes always changes under these two flips, which meet the
  accumulator one rotation apart.
\<close>

lemma byte_fold_inj:
  "byte_fold acc bs = byte_fold acc' bs \<Longrightarrow> acc = acc'"
proof (induction acc bs arbitrary: acc' rule: byte_fold.induct)
  case (1 acc)
  then show ?case by simp
next
  case (2 acc b)
  then have "(acc XOR b) XOR b = (acc' XOR b) XOR b"
    by simp
  then show ?case
    by (simp add: xor.assoc)
next
  case (3 acc b b' bs)
  then have "word_rotl 1 (acc XOR b) = word_rotl 1 (acc' XOR b)"
    by simp
  then have "word_rotr 1 (word_rotl 1 (acc XOR b)) = word_rotr 1 (word_rotl 1 (acc' XOR b))"
    by (rule arg_cong)
  then have "(acc XOR b) XOR b = (acc' XOR b) XOR b"
    by simp
  then show ?case
    by (simp add: xor.assoc)
qed

lemma byte_fold_flip_head:
  "byte_fold acc ((b XOR d) # bs) = byte_fold (acc XOR d) (b # bs)"
  by (cases bs) (simp_all add: ac_simps)

lemma word_rotl_flip: "word_rotl 1 (v XOR 1) XOR 1 \<noteq> word_rotl 1 (v :: 8 word)"
proof
  assume "word_rotl 1 (v XOR 1) XOR 1 = word_rotl 1 v"
  then have "bit (word_rotl 1 (v XOR 1) XOR 1) 0 = bit (word_rotl 1 v) 0"
    by simp
  then show False
    by (simp add: bit_simps)
qed

lemma byte_fold_double_flip:
  "byte_fold acc ((b XOR 1) # (b' XOR 1) # bs) \<noteq> byte_fold acc (b # b' # bs)"
proof
  assume a: "byte_fold acc ((b XOR 1) # (b' XOR 1) # bs) = byte_fold acc (b # b' # bs)"
  have "byte_fold acc ((b XOR 1) # (b' XOR 1) # bs)
      = byte_fold (word_rotl 1 (acc XOR (b XOR 1)) XOR 1) (b' # bs)"
    by (simp only: byte_fold.simps byte_fold_flip_head)
  moreover have "byte_fold acc (b # b' # bs) = byte_fold (word_rotl 1 (acc XOR b)) (b' # bs)"
    by (simp only: byte_fold.simps)
  ultimately have "byte_fold (word_rotl 1 (acc XOR (b XOR 1)) XOR 1) (b' # bs)
      = byte_fold (word_rotl 1 (acc XOR b)) (b' # bs)"
    using a by simp
  then have "word_rotl 1 (acc XOR (b XOR 1)) XOR 1 = word_rotl 1 (acc XOR b)"
    by (rule byte_fold_inj)
  then show False
    using word_rotl_flip [of "acc XOR b"] by (simp add: xor.assoc)
qed

lemma live_stack_Cons2:
  assumes "unat (sp (os_processes s pid)) + 2 \<le> unat (stack_bottom io pid)"
  shows "live_stack io s pid
    = ram s (sp (os_processes s pid) + 1) # ram s (sp (os_processes s pid) + 2)
      # map (\<lambda>a. ram s (of_nat a))
          [unat (sp (os_processes s pid)) + 3..<unat (stack_bottom io pid) + 1]"
proof -
  let ?P = "unat (sp (os_processes s pid))" and ?B = "unat (stack_bottom io pid)"
  have u: "[?P + 1..<?B + 1] = (?P + 1) # (?P + 2) # [?P + 3..<?B + 1]"
    using assms by (simp add: upt_conv_Cons eval_nat_numeral)
  have a: "of_nat (?P + 1) = sp (os_processes s pid) + 1"
    "of_nat (?P + 2) = sp (os_processes s pid) + 2"
    by simp_all
  show ?thesis
    unfolding live_stack_def u list.map a ..
qed

lemma live_stack_double_flip:
  assumes "p = sp (os_processes s pid)"
    and "unat p + 2 \<le> unat (stack_bottom io pid)"
    and "m = (ram s)(p + 1 := ram s (p + 1) XOR 1, p + 2 := ram s (p + 2) XOR 1)"
  shows "\<exists>bs. live_stack io s pid = ram s (p + 1) # ram s (p + 2) # bs
    \<and> live_stack io (s\<lparr> ram := m \<rparr>) pid
        = (ram s (p + 1) XOR 1) # (ram s (p + 2) XOR 1) # bs"
proof -
  let ?P = "unat p" and ?B = "unat (stack_bottom io pid)"
  have "?B < 2 ^ LENGTH(16)"
    by (rule unsigned_less)
  then have B: "?B < 65536"
    by simp
  have a1: "of_nat (?P + 1) = p + 1" and a2: "of_nat (?P + 2) = p + 2"
    by simp_all
  have d: "p + 1 \<noteq> p + 2"
    by simp
  have far: "of_nat a \<noteq> p + 1 \<and> of_nat a \<noteq> p + 2" if "a \<in> set [?P + 3..<?B + 1]" for a
  proof -
    from that have "?P + 3 \<le> a \<and> a < ?B + 1"
      by (simp only: set_upt atLeastLessThan_iff)
    then have r: "?P + 3 \<le> a" "a < 65536"
      using B by arith+
    have "unat (of_nat a :: 16 word) = a"
      using r(2) by (simp add: unat_of_nat)
    moreover have "unat (of_nat (?P + 1) :: 16 word) = ?P + 1"
      and "unat (of_nat (?P + 2) :: 16 word) = ?P + 2"
      using assms(2) B by (simp_all only: unat_of_nat) simp_all
    ultimately have "unat (of_nat a :: 16 word) \<noteq> unat (p + 1)"
      and "unat (of_nat a :: 16 word) \<noteq> unat (p + 2)"
      using r(1) unfolding a1 a2 by simp_all
    then show ?thesis by auto
  qed
  have rest: "map (\<lambda>a. m (of_nat a)) [?P + 3..<?B + 1]
      = map (\<lambda>a. ram s (of_nat a)) [?P + 3..<?B + 1]"
    using far by (intro map_cong refl) (simp add: assms(3))
  have le: "unat (sp (os_processes s pid)) + 2 \<le> unat (stack_bottom io pid)"
    and le': "unat (sp (os_processes (s\<lparr> ram := m \<rparr>) pid)) + 2 \<le> unat (stack_bottom io pid)"
    using assms(1,2) by simp_all
  have "live_stack io s pid
      = ram s (p + 1) # ram s (p + 2) # map (\<lambda>a. ram s (of_nat a)) [?P + 3..<?B + 1]"
    using live_stack_Cons2 [OF le] by (simp only: assms(1))
  moreover have "live_stack io (s\<lparr> ram := m \<rparr>) pid
      = m (p + 1) # m (p + 2) # map (\<lambda>a. m (of_nat a)) [?P + 3..<?B + 1]"
    using live_stack_Cons2 [OF le'] by (simp add: assms(1))
  moreover have "m (p + 1) = ram s (p + 1) XOR 1" and "m (p + 2) = ram s (p + 2) XOR 1"
    using d by (simp_all add: assms(3))
  ultimately show ?thesis
    using rest by simp
qed

lemma byte_fold_live_stack_double_flip:
  assumes "p = sp (os_processes s pid)"
    and "unat p + 2 \<le> unat (stack_bottom io pid)"
    and "m = (ram s)(p + 1 := ram s (p + 1) XOR 1, p + 2 := ram s (p + 2) XOR 1)"
  shows "byte_fold 0 (live_stack io (s\<lparr> ram := m \<rparr>) pid) \<noteq> byte_fold 0 (live_stack io s pid)"
proof -
  from live_stack_double_flip [OF assms] obtain bs
    where "live_stack io s pid = ram s (p + 1) # ram s (p + 2) # bs"
      and "live_stack io (s\<lparr> ram := m \<rparr>) pid
        = (ram s (p + 1) XOR 1) # (ram s (p + 2) XOR 1) # bs"
    by blast
  then show ?thesis
    by (simp only: byte_fold_double_flip not_False_eq_True)
qed

end
